theory Spec2Isabelle
  imports Main "HOL-Library.AList"
begin

section \<open>Narrative enrichment pipeline (script/aiff-enrichment2.py)\<close>

text \<open>
  The script reads a tab-separated table, asks a text-generation service for an annotation
  of every narrative, asks it again for a comparison of every adjacent pair of annotations,
  and writes the table back. The embedding follows the three functions of the script:
  \<open>process_single_narrative\<close>, \<open>process_narrative_pairs\<close> and \<open>process_narratives\<close>.
\<close>

subsection \<open>Values, errors and the world\<close>

text \<open>
  The Python values that flow through the script: a \<open>str\<close>, or \<open>None\<close> (what
  \<open>process_single_narrative\<close> returns when its loop body never runs).
  \<open>py_format\<close> is what an f-string placeholder makes of such a value.
\<close>

datatype py_value = PyStr string | PyNone

fun py_format :: "py_value \<Rightarrow> string" where
  "py_format (PyStr s) = s"
| "py_format PyNone = ''None''"

text \<open>
  The exceptions that can leave the script's functions: \<open>ValueError\<close> from
  \<open>time.sleep\<close> on a negative duration and from a column assignment of the wrong
  length, \<open>OverflowError\<close> from \<open>time.sleep\<close> on a duration too large for its clock,
  \<open>FileNotFoundError\<close> and \<open>ParserError\<close> from \<open>pd.read_csv\<close>, \<open>KeyError\<close> from the
  lookup of a missing column.
\<close>

datatype py_error =
  ValueError | OverflowError | FileNotFoundError | ParserError | KeyError string

text \<open>
  What the script does to its environment, in the order it does it: a request sent to the
  generation service (with the content of the user message), and a call of \<open>time.sleep\<close>
  that returned (with its argument).
\<close>

datatype event = Request string | Sleep int

text \<open>
  The generation service, \<open>client.messages.create\<close>: given everything that happened so
  far and the content of the user message, it either raises an \<open>Exception\<close> (\<open>Inl\<close>,
  carrying \<open>str(e)\<close>) or returns a message (\<open>Inr\<close>, carrying \<open>message.content\<close>, a text).
  A service with internal state, a rate limit or a clock is a function of the history; a
  service that may answer in more than one way is covered by theorems that hold for every
  such function.
\<close>

type_synonym capability = "event list \<Rightarrow> string \<Rightarrow> string + string"

text \<open>
  A \<open>DataFrame\<close>: the length of its index and its columns in insertion order, each a
  name and a list of cells. The stored file is abstracted to the frame that
  \<open>pd.read_csv\<close> makes of it; parsing and printing of the text are not modelled.
\<close>

record dataframe =
  nrows :: nat
  cols :: "(string \<times> py_value list) list"

text \<open>
  What is stored at a path: a table, or bytes that \<open>pd.read_csv\<close> cannot parse.
\<close>

datatype stored = Table dataframe | Unparsable

record world =
  trace :: "event list"
  files :: "string \<rightharpoonup> stored"

subsection \<open>\<open>process_single_narrative\<close>\<close>

definition newline :: char where
  "newline = CHR 0x0A"

text \<open>
  \<open>time.sleep(secs)\<close> on an \<open>int\<close>. The interpreter first converts the seconds to a
  signed 64-bit count of nanoseconds and raises \<open>OverflowError\<close> when that does not fit:
  \<open>9223372036\<close> seconds is the largest duration that does. It then raises
  \<open>ValueError\<close> on a negative duration, and otherwise returns after the pause.
\<close>

definition sleep_max :: int where
  "sleep_max = 9223372036"

definition sleep :: "int \<Rightarrow> world \<Rightarrow> py_error + world" where
  "sleep secs w =
     (if secs < - sleep_max \<or> sleep_max < secs then Inl OverflowError
      else if secs < 0 then Inl ValueError
      else Inr (w\<lparr>trace := trace w @ [Sleep secs]\<rparr>))"

text \<open>
  The loop \<open>for attempt in range(max_retries)\<close>, entered at \<open>attempt\<close>. \<open>content\<close> is the
  user message, the same at every attempt. Leaving the loop without a \<open>return\<close> is
  Python's implicit \<open>return None\<close>. An exception raised inside the handler (by
  \<open>time.sleep\<close>) is not caught.
\<close>

function retry_loop ::
  "capability \<Rightarrow> string \<Rightarrow> int \<Rightarrow> int \<Rightarrow> int \<Rightarrow> world \<Rightarrow> (py_error + py_value) \<times> world"
where
  "retry_loop client content max_retries delay attempt w =
     (if attempt < max_retries then
        (let w1 = w\<lparr>trace := trace w @ [Request content]\<rparr> in
         case client (trace w) content of
           Inr message_content \<Rightarrow> (Inr (PyStr message_content), w1)
         | Inl e \<Rightarrow>
             if attempt = max_retries - 1 then (Inr (PyStr (''Error: '' @ e)), w1)
             else (case sleep (delay * (attempt + 1)) w1 of
                     Inl err \<Rightarrow> (Inl err, w1)
                   | Inr w2 \<Rightarrow> retry_loop client content max_retries delay (attempt + 1) w2))
      else (Inr PyNone, w))"
  by pat_completeness auto
termination
  by (relation "measure (\<lambda>(client, content, max_retries, delay, attempt, w).
        nat (max_retries - attempt))") auto

declare retry_loop.simps [simp del]

text \<open>The user message of a request: the f-string \<open>"{prompt}\n\nNarrative: {narrative}"\<close>.\<close>

definition user_content :: "string \<Rightarrow> py_value \<Rightarrow> string" where
  "user_content prompt narrative =
     prompt @ [newline, newline] @ ''Narrative: '' @ py_format narrative"

definition process_single_narrative ::
  "py_value \<Rightarrow> capability \<Rightarrow> string \<Rightarrow> int \<Rightarrow> int \<Rightarrow> world \<Rightarrow> (py_error + py_value) \<times> world"
where
  "process_single_narrative narrative client prompt max_retries delay w =
     retry_loop client (user_content prompt narrative) max_retries delay 0 w"

subsection \<open>\<open>process_narrative_pairs\<close>\<close>

text \<open>The payload of a comparison: the f-string \<open>"First: {narratives[i]}\nSecond: {narratives[i+1]}"\<close>.\<close>

definition pair_payload :: "py_value \<Rightarrow> py_value \<Rightarrow> string" where
  "pair_payload first second =
     ''First: '' @ py_format first @ [newline] @ ''Second: '' @ py_format second"

text \<open>
  The loop \<open>for i in range(len(narratives) - 1)\<close>, entered at \<open>i\<close>, with the list
  \<open>results\<close> as it stands. Both reads and the write are in range whenever the body runs.
  The call of \<open>process_single_narrative\<close> takes the defaults \<open>max_retries = 3\<close> and
  \<open>delay = 1\<close>; an exception leaving it would leave the loop.
\<close>

function pairs_loop ::
  "py_value list \<Rightarrow> capability \<Rightarrow> string \<Rightarrow> nat \<Rightarrow> py_value list \<Rightarrow> world \<Rightarrow>
     (py_error + py_value list) \<times> world"
where
  "pairs_loop narratives client prompt i results w =
     (if int i < int (length narratives) - 1 then
        (case process_single_narrative
                (PyStr (pair_payload (narratives ! i) (narratives ! (i + 1)))) client prompt 3 1 w of
           (Inl err, w1) \<Rightarrow> (Inl err, w1)
         | (Inr pair_result, w1) \<Rightarrow>
             pairs_loop narratives client prompt (i + 1) (results[i + 1 := pair_result]) w1)
      else (Inr results, w))"
  by pat_completeness auto
termination
  by (relation "measure (\<lambda>(narratives, client, prompt, i, results, w).
        length narratives - i)") auto

declare pairs_loop.simps [simp del]

definition process_narrative_pairs ::
  "py_value list \<Rightarrow> capability \<Rightarrow> string \<Rightarrow> world \<Rightarrow> (py_error + py_value list) \<times> world"
where
  "process_narrative_pairs narratives client prompt w =
     pairs_loop narratives client prompt 0 (replicate (length narratives) (PyStr [])) w"

subsection \<open>\<open>process_narratives\<close>\<close>

text \<open>
  The calls into pandas, as far as the script depends on them.
  \<open>pd.read_csv\<close> raises when nothing is stored at the path and when what is stored
  cannot be parsed; \<open>df[c]\<close> raises \<open>KeyError\<close> on a
  missing column; \<open>df[c] = cells\<close> replaces the column \<open>c\<close> where it stands or adds it as
  the last column, and raises \<open>ValueError\<close> when the number of cells is not the length
  of the index; \<open>Series.apply\<close> calls the function on every cell, first to last;
  \<open>df.to_csv\<close> overwrites what is stored at the path.
\<close>

definition read_csv :: "string \<Rightarrow> world \<Rightarrow> py_error + dataframe" where
  "read_csv file_path w =
     (case files w file_path of
        None \<Rightarrow> Inl FileNotFoundError
      | Some Unparsable \<Rightarrow> Inl ParserError
      | Some (Table df) \<Rightarrow> Inr df)"

definition getitem :: "dataframe \<Rightarrow> string \<Rightarrow> py_error + py_value list" where
  "getitem df c =
     (case map_of (cols df) c of None \<Rightarrow> Inl (KeyError c) | Some cells \<Rightarrow> Inr cells)"

definition setitem :: "dataframe \<Rightarrow> string \<Rightarrow> py_value list \<Rightarrow> py_error + dataframe" where
  "setitem df c cells =
     (if length cells \<noteq> nrows df then Inl ValueError
      else Inr (df\<lparr>cols := AList.update c cells (cols df)\<rparr>))"

fun apply_series ::
  "(py_value \<Rightarrow> world \<Rightarrow> (py_error + py_value) \<times> world) \<Rightarrow> py_value list \<Rightarrow> world \<Rightarrow>
     (py_error + py_value list) \<times> world"
where
  "apply_series f [] w = (Inr [], w)"
| "apply_series f (x # xs) w =
     (case f x w of
        (Inl err, w1) \<Rightarrow> (Inl err, w1)
      | (Inr y, w1) \<Rightarrow>
          (case apply_series f xs w1 of
             (Inl err, w2) \<Rightarrow> (Inl err, w2)
           | (Inr ys, w2) \<Rightarrow> (Inr (y # ys), w2)))"

definition to_csv :: "dataframe \<Rightarrow> string \<Rightarrow> world \<Rightarrow> world" where
  "to_csv df file_path w = w\<lparr>files := (files w)(file_path \<mapsto> Table df)\<rparr>"

text \<open>
  The driver. \<open>client\<close> stands for the object that \<open>Anthropic(api_key=api_key)\<close> builds.
  The right-hand side of each column assignment is evaluated before the assignment.
\<close>

definition process_narratives ::
  "string \<Rightarrow> capability \<Rightarrow> string \<Rightarrow> string \<Rightarrow> world \<Rightarrow> (py_error + unit) \<times> world"
where
  "process_narratives file_path client narrative_prompt comparison_prompt w =
     (case read_csv file_path w of
        Inl err \<Rightarrow> (Inl err, w)
      | Inr df \<Rightarrow>
     (case getitem df ''Narrative'' of
        Inl err \<Rightarrow> (Inl err, w)
      | Inr narratives \<Rightarrow>
     (case apply_series (\<lambda>x. process_single_narrative x client narrative_prompt 3 1)
             narratives w of
        (Inl err, w1) \<Rightarrow> (Inl err, w1)
      | (Inr roles, w1) \<Rightarrow>
     (case setitem df ''Narrative_roles_and_salient_elements'' roles of
        Inl err \<Rightarrow> (Inl err, w1)
      | Inr df1 \<Rightarrow>
     (case getitem df1 ''Narrative_roles_and_salient_elements'' of
        Inl err \<Rightarrow> (Inl err, w1)
      | Inr annotations \<Rightarrow>
     (case process_narrative_pairs annotations client comparison_prompt w1 of
        (Inl err, w2) \<Rightarrow> (Inl err, w2)
      | (Inr persistence, w2) \<Rightarrow>
     (case setitem df1 ''Elements_persistence'' persistence of
        Inl err \<Rightarrow> (Inl err, w2)
      | Inr df2 \<Rightarrow> (Inr (), to_csv df2 file_path w2))))))))"

subsection \<open>Reading a trace\<close>

fun requests_of :: "event list \<Rightarrow> string list" where
  "requests_of [] = []"
| "requests_of (Request q # t) = q # requests_of t"
| "requests_of (Sleep secs # t) = requests_of t"


text \<open>
  What attempts \<open>a, ..., b - 1\<close> of the retry loop leave in the trace when each of them
  fails and is followed by its pause: the request, then a sleep of \<open>delay\<close> times the
  number of attempts made so far.
\<close>

definition backoff_trace :: "string \<Rightarrow> int \<Rightarrow> int \<Rightarrow> int \<Rightarrow> event list" where
  "backoff_trace content delay a b =
     concat (map (\<lambda>i. [Request content, Sleep (delay * (i + 1))]) [a..b - 1])"

text \<open>A frame is well formed when every column has as many cells as the index has rows.\<close>

definition wf_dataframe :: "dataframe \<Rightarrow> bool" where
  "wf_dataframe df = list_all (\<lambda>(c, cells). length cells = nrows df) (cols df)"

text \<open>
  What a cell written by the script can hold: a text the service answered with, or the
  error marker made from an exception the service raised.
\<close>

definition service_cell :: "capability \<Rightarrow> py_value \<Rightarrow> bool" where
  "service_cell client cell \<longleftrightarrow>
     (\<exists>h q s. client h q = Inr s \<and> cell = PyStr s) \<or>
     (\<exists>h q e. client h q = Inl e \<and> cell = PyStr (''Error: '' @ e))"

text \<open>
  What a call of \<open>process_single_narrative\<close> with the defaults, sending \<open>content\<close> from
  the world \<open>w\<close>, leaves as its result: after \<open>k\<close> failed attempts (\<open>k\<close> at most 2), each
  followed by its pause, the text the service answers with at the next attempt, or, when
  the third attempt raises too, \<open>Error: \<close> followed by the text of that exception.
\<close>

definition cell_outcome :: "capability \<Rightarrow> string \<Rightarrow> world \<Rightarrow> py_value \<Rightarrow> bool" where
  "cell_outcome client content w cell \<longleftrightarrow>
     (\<exists>k. 0 \<le> k \<and> k < 3 \<and>
        (\<forall>j\<in>{0..<k}. isl (client (trace w @ backoff_trace content 1 0 j) content)) \<and>
        (case client (trace w @ backoff_trace content 1 0 k) content of
           Inr p \<Rightarrow> cell = PyStr p
         | Inl e \<Rightarrow> k = 2 \<and> cell = PyStr (''Error: '' @ e)))"

subsection \<open>Example services and worlds\<close>

text \<open>
  A service that always raises, one that always answers with a text that reads like the
  script's error marker, one that raises on its first two requests and answers from the
  third on, and one that answers every request with a text made from the request alone.
\<close>

definition failing_client :: capability where
  "failing_client h q = Inl ''boom''"

definition parroting_client :: capability where
  "parroting_client h q = Inr ''Error: boom''"


definition echo_client :: capability where
  "echo_client h q = Inr (''re: '' @ q)"

definition empty_world :: world where
  "empty_world = \<lparr>trace = [], files = Map.empty\<rparr>"

text \<open>
  The table of three narratives stored at \<open>table.tsv\<close>, a table without the
  \<open>Narrative\<close> column, and a file that is not a table.
\<close>

definition demo_table :: dataframe where
  "demo_table =
     \<lparr>nrows = 3,
      cols = [(''Narrative'',
               [PyStr ''A dog slept.'', PyStr ''A cat helped.'', PyStr ''A bird attacked.''])]\<rparr>"

definition demo_world :: world where
  "demo_world = \<lparr>trace = [], files = [''table.tsv'' \<mapsto> Table demo_table]\<rparr>"

definition headless_table :: dataframe where
  "headless_table = \<lparr>nrows = 1, cols = [(''Text'', [PyStr ''A dog slept.''])]\<rparr>"

definition headless_world :: world where
  "headless_world = \<lparr>trace = [], files = [''table.tsv'' \<mapsto> Table headless_table]\<rparr>"

definition garbled_world :: world where
  "garbled_world = \<lparr>trace = [], files = [''table.tsv'' \<mapsto> Unparsable]\<rparr>"

section \<open>The retry loop\<close>

lemma backoff_trace_empty: "b \<le> a \<Longrightarrow> backoff_trace q d a b = []"
  by (simp add: backoff_trace_def)

lemma backoff_trace_step:
  "a < b \<Longrightarrow> backoff_trace q d a b = Request q # Sleep (d * (a + 1)) # backoff_trace q d (a + 1) b"
  by (simp add: backoff_trace_def upto_rec1)

lemma sleep_returns:
  "0 \<le> secs \<Longrightarrow> secs \<le> sleep_max \<Longrightarrow>
   sleep secs w = Inr (w\<lparr>trace := trace w @ [Sleep secs]\<rparr>)"
  by (simp add: sleep_def sleep_max_def)

lemma backoff_in_range:
  assumes "0 \<le> a" and "a + 1 \<le> b" and "0 \<le> d" and "d * b \<le> sleep_max"
  shows "0 \<le> d * (a + 1) \<and> d * (a + 1) \<le> sleep_max"
proof -
  have "d * (a + 1) \<le> d * b"
    using assms(2,3) by (rule mult_left_mono)
  moreover have "0 \<le> d * (a + 1)" using assms(1,3) by simp
  ultimately show ?thesis using assms(4) by simp
qed




lemma retry_loop_outcome:
  assumes "0 \<le> a" "a < m" "0 \<le> d" and "d * (m - 1) \<le> sleep_max"
  shows "\<exists>k s. a \<le> k \<and> k < m \<and>
           (\<forall>j\<in>{a..<k}. isl (client (trace w @ backoff_trace q d a j) q)) \<and>
           retry_loop client q m d a w =
             (Inr (PyStr s), w\<lparr>trace := trace w @ backoff_trace q d a k @ [Request q]\<rparr>) \<and>
           (case client (trace w @ backoff_trace q d a k) q of
              Inr p \<Rightarrow> s = p
            | Inl e \<Rightarrow> k = m - 1 \<and> s = ''Error: '' @ e)"
  using assms
proof (induction "nat (m - 1 - a)" arbitrary: a w)
  case 0
  then have a: "a = m - 1" by simp
  show ?case
  proof (cases "client (trace w) q")
    case (Inl e)
    then have "retry_loop client q m d a w =
        (Inr (PyStr (''Error: '' @ e)), w\<lparr>trace := trace w @ [Request q]\<rparr>)"
      unfolding a by (simp add: retry_loop.simps [of client q m d "m - 1" w])
    with Inl a 0(3) show ?thesis
      by (intro exI [of _ a] exI [of _ "''Error: '' @ e"]) (simp add: backoff_trace_empty)
  next
    case (Inr p)
    then have "retry_loop client q m d a w =
        (Inr (PyStr p), w\<lparr>trace := trace w @ [Request q]\<rparr>)"
      unfolding a by (simp add: retry_loop.simps [of client q m d "m - 1" w])
    with Inr a 0(3) show ?thesis
      by (intro exI [of _ a] exI [of _ p]) (simp add: backoff_trace_empty)
  qed
next
  case (Suc n)
  then have lt: "a < m - 1" by linarith
  show ?case
  proof (cases "client (trace w) q")
    case (Inr p)
    then have "retry_loop client q m d a w =
        (Inr (PyStr p), w\<lparr>trace := trace w @ [Request q]\<rparr>)"
      using Suc.prems(2) by (simp add: retry_loop.simps [of client q m d a w])
    with Inr Suc.prems(2) show ?thesis
      by (intro exI [of _ a] exI [of _ p]) (simp add: backoff_trace_empty)
  next
    case (Inl e)
    let ?w2 = "w\<lparr>trace := trace w @ [Request q, Sleep (d * (a + 1))]\<rparr>"
    have "0 \<le> d * (a + 1) \<and> d * (a + 1) \<le> sleep_max"
      using Suc.prems(1) _ Suc.prems(3) Suc.prems(4) by (rule backoff_in_range) (use lt in simp)
    then have pause: "sleep (d * (a + 1)) (w\<lparr>trace := trace w @ [Request q]\<rparr>) = Inr ?w2"
      by (simp add: sleep_returns)
    have unf: "retry_loop client q m d a w = retry_loop client q m d (a + 1) ?w2"
      using lt Inl
      by (simp add: retry_loop.simps [of client q m d a w] pause Let_def)
    have "n = nat (m - 1 - (a + 1))" using Suc.hyps(2) by linarith
    from Suc.hyps(1) [OF this, of ?w2] Suc.prems lt
    obtain k s where k: "a + 1 \<le> k" "k < m"
      and fails: "\<forall>j\<in>{a + 1..<k}. isl (client (trace ?w2 @ backoff_trace q d (a + 1) j) q)"
      and res: "retry_loop client q m d (a + 1) ?w2 =
             (Inr (PyStr s), ?w2\<lparr>trace := trace ?w2 @ backoff_trace q d (a + 1) k @ [Request q]\<rparr>)"
      and out: "(case client (trace ?w2 @ backoff_trace q d (a + 1) k) q of
              Inr p \<Rightarrow> s = p
            | Inl e \<Rightarrow> k = m - 1 \<and> s = ''Error: '' @ e)"
      by force
    have ak: "a < k" using k by simp
    have f': "\<forall>j\<in>{a..<k}. isl (client (trace w @ backoff_trace q d a j) q)"
    proof
      fix j assume j: "j \<in> {a..<k}"
      show "isl (client (trace w @ backoff_trace q d a j) q)"
      proof (cases "j = a")
        case True
        then show ?thesis using Inl by (simp add: backoff_trace_empty)
      next
        case False
        then have "j \<in> {a + 1..<k}" using j by simp
        with fails have "isl (client (trace ?w2 @ backoff_trace q d (a + 1) j) q)" by blast
        moreover have "a < j" using False j by simp
        ultimately show ?thesis by (simp add: backoff_trace_step)
      qed
    qed
    show ?thesis
      using k ak f' res out unf
      by (intro exI [of _ k] exI [of _ s]) (simp add: backoff_trace_step)
  qed
qed


lemma requests_of_append: "requests_of (s @ t) = requests_of s @ requests_of t"
  by (induction s rule: requests_of.induct) simp_all


lemma requests_of_backoff_trace:
  "requests_of (backoff_trace q d a b) = replicate (nat (b - a)) q"
proof (induction "nat (b - a)" arbitrary: a)
  case 0
  then show ?case by (simp add: backoff_trace_empty)
next
  case (Suc n)
  then have "a < b" and "n = nat (b - (a + 1))" by linarith+
  with Suc.hyps(1) [of "a + 1"] Suc.hyps(2) show ?case
    by (simp add: backoff_trace_step flip: Suc.hyps(2))
qed




section \<open>The loop over adjacent pairs\<close>

lemma process_single_narrative_default:
  "\<exists>s k. 0 \<le> k \<and> k < 3 \<and>
     process_single_narrative x client prompt 3 1 w =
       (Inr (PyStr s),
        w\<lparr>trace := trace w @ backoff_trace (user_content prompt x) 1 0 k @
             [Request (user_content prompt x)]\<rparr>) \<and>
     (case client (trace w @ backoff_trace (user_content prompt x) 1 0 k) (user_content prompt x) of
        Inr p \<Rightarrow> s = p
      | Inl e \<Rightarrow> k = 2 \<and> s = ''Error: '' @ e)"
proof -
  have "(1::int) * (3 - 1) \<le> sleep_max" by (simp add: sleep_max_def)
  from retry_loop_outcome [OF _ _ _ this, of 0 client w "user_content prompt x"]
  obtain k s where "0 \<le> k" "k < 3"
    "retry_loop client (user_content prompt x) 3 1 0 w =
       (Inr (PyStr s),
        w\<lparr>trace := trace w @ backoff_trace (user_content prompt x) 1 0 k @
             [Request (user_content prompt x)]\<rparr>)"
    "(case client (trace w @ backoff_trace (user_content prompt x) 1 0 k) (user_content prompt x) of
        Inr p \<Rightarrow> s = p
      | Inl e \<Rightarrow> k = 3 - 1 \<and> s = ''Error: '' @ e)"
    by auto
  then show ?thesis
    unfolding process_single_narrative_def
    by (intro exI [of _ s] exI [of _ k]) (simp split: sum.splits)
qed

lemma process_single_narrative_returns:
  "\<exists>s w'. process_single_narrative x client prompt 3 1 w = (Inr (PyStr s), w') \<and>
     files w' = files w"
  using process_single_narrative_default [of x client prompt w] by auto

lemma pairs_loop_stop:
  "length xs \<le> Suc i \<Longrightarrow> pairs_loop xs client prompt i rs w = (Inr rs, w)"
  by (subst pairs_loop.simps) simp

lemma pairs_loop_step:
  "Suc i < length xs \<Longrightarrow>
   pairs_loop xs client prompt i rs w =
     (case process_single_narrative
             (PyStr (pair_payload (xs ! i) (xs ! Suc i))) client prompt 3 1 w of
        (Inl err, w1) \<Rightarrow> (Inl err, w1)
      | (Inr pair_result, w1) \<Rightarrow>
          pairs_loop xs client prompt (Suc i) (rs[Suc i := pair_result]) w1)"
  unfolding Suc_eq_plus1 by (subst pairs_loop.simps) simp

lemma pairs_loop_snoc:
  assumes "i < length xs" and "length rs = length xs"
  shows "pairs_loop (xs @ [x]) client prompt i (rs @ [z]) w =
     (case pairs_loop xs client prompt i rs w of
        (Inl err, w1) \<Rightarrow> (Inl err, w1)
      | (Inr rs1, w1) \<Rightarrow>
          (case process_single_narrative (PyStr (pair_payload (last xs) x)) client prompt 3 1 w1 of
             (Inl err, w2) \<Rightarrow> (Inl err, w2)
           | (Inr r, w2) \<Rightarrow> (Inr (rs1 @ [r]), w2)))"
  using assms
proof (induction "length xs - 1 - i" arbitrary: i rs w)
  case 0
  then have i1: "Suc i = length xs" and ne: "xs \<noteq> []" by auto
  have stop: "pairs_loop xs client prompt i rs w = (Inr rs, w)"
    using i1 by (simp add: pairs_loop_stop)
  have "i = length xs - 1" using i1 by simp
  then have "xs ! i = last xs" using ne by (simp add: last_conv_nth)
  then have nth: "(xs @ [x]) ! i = last xs" "(xs @ [x]) ! Suc i = x"
    using i1 by (simp_all add: nth_append)
  have fin: "pairs_loop (xs @ [x]) client prompt (Suc i) ((rs @ [z])[Suc i := r]) w1 =
      (Inr (rs @ [r]), w1)" for r w1
  proof -
    have "Suc i = length rs" using i1 0(3) by simp
    then have "(rs @ [z])[Suc i := r] = rs @ [r]" by simp
    moreover have "length (xs @ [x]) \<le> Suc (Suc i)" using i1 by simp
    ultimately show ?thesis by (simp only: pairs_loop_stop)
  qed
  have "Suc i < length (xs @ [x])" using i1 by simp
  then have "pairs_loop (xs @ [x]) client prompt i (rs @ [z]) w =
     (case process_single_narrative (PyStr (pair_payload (last xs) x)) client prompt 3 1 w of
        (Inl err, w1) \<Rightarrow> (Inl err, w1)
      | (Inr r, w1) \<Rightarrow> (Inr (rs @ [r]), w1))"
    by (simp only: pairs_loop_step nth fin)
  then show ?case by (simp only: stop prod.case sum.case)
next
  case (Suc n)
  then have lt: "Suc i < length xs" by simp
  have nth: "(xs @ [x]) ! i = xs ! i" "(xs @ [x]) ! Suc i = xs ! Suc i"
    using lt by (simp_all add: nth_append)
  have upd: "(rs @ [z])[Suc i := r] = rs[Suc i := r] @ [z]" for r
    using lt Suc.prems(2) by (simp add: list_update_append)
  have ih: "pairs_loop (xs @ [x]) client prompt (Suc i) (rs[Suc i := r] @ [z]) w1 =
     (case pairs_loop xs client prompt (Suc i) (rs[Suc i := r]) w1 of
        (Inl err, w1) \<Rightarrow> (Inl err, w1)
      | (Inr rs1, w1) \<Rightarrow>
          (case process_single_narrative (PyStr (pair_payload (last xs) x)) client prompt 3 1 w1 of
             (Inl err, w2) \<Rightarrow> (Inl err, w2)
           | (Inr r, w2) \<Rightarrow> (Inr (rs1 @ [r]), w2)))" for r w1
    using Suc.hyps(1) [of "Suc i"] Suc.hyps(2) lt Suc.prems(2) by simp
  have "Suc i < length (xs @ [x])" using lt by simp
  then have "pairs_loop (xs @ [x]) client prompt i (rs @ [z]) w =
     (case process_single_narrative (PyStr (pair_payload (xs ! i) (xs ! Suc i))) client prompt 3 1 w of
        (Inl err, w1) \<Rightarrow> (Inl err, w1)
      | (Inr r, w1) \<Rightarrow>
         (case pairs_loop xs client prompt (Suc i) (rs[Suc i := r]) w1 of
            (Inl err, w1) \<Rightarrow> (Inl err, w1)
          | (Inr rs1, w1) \<Rightarrow>
             (case process_single_narrative (PyStr (pair_payload (last xs) x)) client prompt 3 1 w1 of
                (Inl err, w2) \<Rightarrow> (Inl err, w2)
              | (Inr r, w2) \<Rightarrow> (Inr (rs1 @ [r]), w2))))"
    by (simp only: pairs_loop_step nth upd ih)
  then show ?case
    by (simp add: pairs_loop_step [OF lt] split: prod.splits sum.splits)
qed

lemma process_narrative_pairs_Nil:
  "process_narrative_pairs [] client prompt w = (Inr [], w)"
  by (simp add: process_narrative_pairs_def pairs_loop_stop)

lemma process_narrative_pairs_single:
  "process_narrative_pairs [x] client prompt w = (Inr [PyStr []], w)"
  by (simp add: process_narrative_pairs_def pairs_loop_stop)

lemma process_narrative_pairs_snoc:
  assumes "xs \<noteq> []"
  shows "process_narrative_pairs (xs @ [x]) client prompt w =
     (case process_narrative_pairs xs client prompt w of
        (Inl err, w1) \<Rightarrow> (Inl err, w1)
      | (Inr rs1, w1) \<Rightarrow>
          (case process_single_narrative (PyStr (pair_payload (last xs) x)) client prompt 3 1 w1 of
             (Inl err, w2) \<Rightarrow> (Inl err, w2)
           | (Inr r, w2) \<Rightarrow> (Inr (rs1 @ [r]), w2)))"
proof -
  have "replicate (length (xs @ [x])) (PyStr []) = replicate (length xs) (PyStr []) @ [PyStr []]"
    by (simp add: replicate_append_same)
  moreover have "0 < length xs" using assms by simp
  ultimately show ?thesis
    unfolding process_narrative_pairs_def
    by (simp only: pairs_loop_snoc length_replicate)
qed

lemma process_narrative_pairs_returns:
  "\<exists>rs w'. process_narrative_pairs xs client prompt w = (Inr rs, w') \<and>
     length rs = length xs \<and> files w' = files w"
proof (induction xs rule: rev_induct)
  case Nil
  show ?case by (simp add: process_narrative_pairs_Nil)
next
  case (snoc x xs)
  show ?case
  proof (cases "xs = []")
    case True
    then show ?thesis by (simp add: process_narrative_pairs_single)
  next
    case False
    from snoc obtain rs w1 where rs: "process_narrative_pairs xs client prompt w = (Inr rs, w1)"
      "length rs = length xs" "files w1 = files w" by blast
    from process_single_narrative_returns [of "PyStr (pair_payload (last xs) x)" client prompt w1]
    obtain s w2 where s: "process_single_narrative (PyStr (pair_payload (last xs) x))
        client prompt 3 1 w1 = (Inr (PyStr s), w2)" "files w2 = files w1" by blast
    show ?thesis
      by (simp add: process_narrative_pairs_snoc [OF False] rs s)
  qed
qed

lemma process_narrative_pairs_take:
  assumes "process_narrative_pairs xs client prompt w = (Inr rs, w')" and "j \<le> length xs"
  shows "fst (process_narrative_pairs (take j xs) client prompt w) = Inr (take j rs)"
  using assms
proof (induction xs arbitrary: rs w' rule: rev_induct)
  case Nil
  then show ?case by (simp add: process_narrative_pairs_Nil)
next
  case (snoc x xs)
  show ?case
  proof (cases "j = length (xs @ [x])")
    case True
    from process_narrative_pairs_returns [of "xs @ [x]" client prompt w] snoc.prems(1)
    have "length rs = length (xs @ [x])" by auto
    with True snoc.prems(1) show ?thesis by simp
  next
    case False
    then have j: "j \<le> length xs" using snoc.prems(2) by simp
    show ?thesis
    proof (cases "xs = []")
      case True
      with j show ?thesis by (simp add: process_narrative_pairs_Nil)
    next
      case ne: False
      from process_narrative_pairs_returns [of xs client prompt w]
      obtain rs1 w1 where rs1: "process_narrative_pairs xs client prompt w = (Inr rs1, w1)"
        "length rs1 = length xs" by blast
      from process_single_narrative_returns [of "PyStr (pair_payload (last xs) x)" client prompt w1]
      obtain s w2 where s: "process_single_narrative (PyStr (pair_payload (last xs) x))
        client prompt 3 1 w1 = (Inr (PyStr s), w2)" by blast
      have "rs = rs1 @ [PyStr s]"
        using snoc.prems(1) by (simp add: process_narrative_pairs_snoc [OF ne] rs1 s)
      then have "take j rs = take j rs1" using j rs1(2) by simp
      moreover have "take j (xs @ [x]) = take j xs" using j by simp
      ultimately show ?thesis using snoc.IH [OF rs1(1) j] by simp
    qed
  qed
qed

lemma process_narrative_pairs_take_Suc:
  assumes "1 \<le> i" and "i < length xs"
  shows "process_narrative_pairs (take (Suc i) xs) client prompt w =
     (case process_narrative_pairs (take i xs) client prompt w of
        (Inl err, w1) \<Rightarrow> (Inl err, w1)
      | (Inr rs1, w1) \<Rightarrow>
          (case process_single_narrative (PyStr (pair_payload (xs ! (i - 1)) (xs ! i)))
                  client prompt 3 1 w1 of
             (Inl err, w2) \<Rightarrow> (Inl err, w2)
           | (Inr r, w2) \<Rightarrow> (Inr (rs1 @ [r]), w2)))"
proof -
  have ne: "take i xs \<noteq> []" using assms by auto
  have "last (take i xs) = take i xs ! (length (take i xs) - 1)"
    using ne by (rule last_conv_nth)
  also have "length (take i xs) = i" using assms by simp
  also have "take i xs ! (i - 1) = xs ! (i - 1)" using assms by simp
  finally have l: "xs ! (i - 1) = last (take i xs)" by simp
  have t: "take (Suc i) xs = take i xs @ [xs ! i]"
    using assms(2) by (rule take_Suc_conv_app_nth)
  show ?thesis
    unfolding t l by (rule process_narrative_pairs_snoc [OF ne])
qed

lemma process_narrative_pairs_trace_take:
  assumes "j \<le> length xs"
  shows "\<exists>t. trace (snd (process_narrative_pairs xs client prompt w)) =
           trace (snd (process_narrative_pairs (take j xs) client prompt w)) @ t"
  using assms
proof (induction xs rule: rev_induct)
  case Nil
  then show ?case by simp
next
  case (snoc x xs)
  show ?case
  proof (cases "j = length (xs @ [x])")
    case True
    then show ?thesis by simp
  next
    case False
    then have j: "j \<le> length xs" using snoc.prems by simp
    then have tk: "take j (xs @ [x]) = take j xs" by simp
    show ?thesis
    proof (cases "xs = []")
      case True
      with j show ?thesis
        by (simp add: process_narrative_pairs_Nil process_narrative_pairs_single)
    next
      case ne: False
      from process_narrative_pairs_returns [of xs client prompt w]
      obtain rs1 w1 where rs1: "process_narrative_pairs xs client prompt w = (Inr rs1, w1)"
        by blast
      from process_single_narrative_default [of "PyStr (pair_payload (last xs) x)" client prompt w1]
      obtain s t where s: "process_single_narrative (PyStr (pair_payload (last xs) x))
        client prompt 3 1 w1 = (Inr (PyStr s), w1\<lparr>trace := trace w1 @ t\<rparr>)" by blast
      from snoc.IH [OF j] obtain t1 where
        "trace w1 = trace (snd (process_narrative_pairs (take j xs) client prompt w)) @ t1"
        using rs1 by auto
      then show ?thesis
        unfolding tk by (simp add: process_narrative_pairs_snoc [OF ne] rs1 s)
    qed
  qed
qed

section \<open>The driver\<close>

lemma process_single_narrative_cell:
  "\<exists>cell w'. process_single_narrative x client prompt 3 1 w = (Inr cell, w') \<and>
     service_cell client cell \<and> files w' = files w"
proof -
  from process_single_narrative_default [of x client prompt w]
  obtain s k where
    r: "process_single_narrative x client prompt 3 1 w =
       (Inr (PyStr s),
        w\<lparr>trace := trace w @ backoff_trace (user_content prompt x) 1 0 k @
             [Request (user_content prompt x)]\<rparr>)"
    and c: "(case client (trace w @ backoff_trace (user_content prompt x) 1 0 k)
               (user_content prompt x) of
        Inr p \<Rightarrow> s = p
      | Inl e \<Rightarrow> k = 2 \<and> s = ''Error: '' @ e)"
    by blast
  have "service_cell client (PyStr s)"
  proof (cases "client (trace w @ backoff_trace (user_content prompt x) 1 0 k)
               (user_content prompt x)")
    case (Inl e)
    with c have "s = ''Error: '' @ e" by simp
    with Inl show ?thesis unfolding service_cell_def by blast
  next
    case (Inr p)
    with c have "s = p" by simp
    with Inr show ?thesis unfolding service_cell_def by blast
  qed
  with r show ?thesis by simp
qed

lemma apply_series_returns:
  "\<exists>ys w'. apply_series (\<lambda>x. process_single_narrative x client prompt 3 1) xs w = (Inr ys, w') \<and>
     length ys = length xs \<and> files w' = files w \<and> (\<forall>y\<in>set ys. service_cell client y)"
proof (induction xs arbitrary: w)
  case Nil
  show ?case by simp
next
  case (Cons x xs)
  from process_single_narrative_cell [of x client prompt w]
  obtain y w1 where y: "process_single_narrative x client prompt 3 1 w = (Inr y, w1)"
    "service_cell client y" "files w1 = files w" by blast
  from Cons [of w1]
  obtain ys w2 where ys: "apply_series (\<lambda>x. process_single_narrative x client prompt 3 1) xs w1 =
      (Inr ys, w2)" "length ys = length xs" "files w2 = files w1"
      "\<forall>y\<in>set ys. service_cell client y" by blast
  show ?case by (simp add: y ys)
qed

lemma process_narrative_pairs_cells:
  assumes "process_narrative_pairs xs client prompt w = (Inr rs, w')"
  shows "\<forall>r\<in>set rs. r = PyStr [] \<or> service_cell client r"
  using assms
proof (induction xs arbitrary: rs w' rule: rev_induct)
  case Nil
  then show ?case by (simp add: process_narrative_pairs_Nil)
next
  case (snoc x xs)
  show ?case
  proof (cases "xs = []")
    case True
    with snoc.prems show ?thesis by (auto simp: process_narrative_pairs_single)
  next
    case False
    from process_narrative_pairs_returns [of xs client prompt w]
    obtain rs1 w1 where rs1: "process_narrative_pairs xs client prompt w = (Inr rs1, w1)"
      by blast
    from process_single_narrative_cell [of "PyStr (pair_payload (last xs) x)" client prompt w1]
    obtain r w2 where r: "process_single_narrative (PyStr (pair_payload (last xs) x))
        client prompt 3 1 w1 = (Inr r, w2)" "service_cell client r" by blast
    have "rs = rs1 @ [r]"
      using snoc.prems by (simp add: process_narrative_pairs_snoc [OF False] rs1 r)
    with snoc.IH [OF rs1] r(2) show ?thesis by auto
  qed
qed

lemma wf_dataframe_column:
  assumes "wf_dataframe df" and "map_of (cols df) c = Some cells"
  shows "length cells = nrows df"
proof -
  from assms(2) have "(c, cells) \<in> set (cols df)" by (rule map_of_SomeD)
  with assms(1) show ?thesis by (auto simp: wf_dataframe_def list_all_iff)
qed

lemma set_update_subset:
  "set (AList.update k v al) \<subseteq> insert (k, v) (set al)"
  by (induction al) auto

lemma wf_dataframe_update:
  assumes "wf_dataframe df" and "length cells = nrows df"
  shows "wf_dataframe (df\<lparr>cols := AList.update c cells (cols df)\<rparr>)"
  using assms set_update_subset [of c cells "cols df"]
  by (auto simp: wf_dataframe_def list_all_iff)

lemma process_narratives_run:
  assumes "files w file_path = Some (Table df)" and "wf_dataframe df"
    and "map_of (cols df) ''Narrative'' = Some narratives"
    and "apply_series (\<lambda>x. process_single_narrative x client narrative_prompt 3 1)
           narratives w = (Inr roles, w1)"
    and "process_narrative_pairs roles client comparison_prompt w1 = (Inr persistence, w2)"
  shows "process_narratives file_path client narrative_prompt comparison_prompt w =
     (Inr (), to_csv
        (df\<lparr>cols := AList.update ''Elements_persistence'' persistence
           (AList.update ''Narrative_roles_and_salient_elements'' roles (cols df))\<rparr>)
        file_path w2)"
proof -
  have n: "length narratives = nrows df"
    using assms(2,3) by (rule wf_dataframe_column)
  from apply_series_returns [of client narrative_prompt narratives w] assms(4)
  have lr: "length roles = nrows df" using n by auto
  from process_narrative_pairs_returns [of roles client comparison_prompt w1] assms(5)
  have lp: "length persistence = nrows df" using lr by auto
  have g: "map_of (AList.update ''Narrative_roles_and_salient_elements'' roles (cols df))
      ''Narrative_roles_and_salient_elements'' = Some roles"
    by (simp add: update_conv')
  show ?thesis
    unfolding process_narratives_def
    by (simp add: read_csv_def getitem_def setitem_def assms(1,3,4,5) lr lp g)
qed

section \<open>Services that answer by the prompt alone\<close>

lemma retry_loop_deterministic:
  assumes "\<forall>h h' q. client h q = client h' q"
  shows "fst (retry_loop client q m d a w) = fst (retry_loop client q m d a w')"
proof (induction "nat (m - a)" arbitrary: a w w')
  case 0
  then have "\<not> a < m" by simp
  then show ?case
    by (simp add: retry_loop.simps [of client q m d a])
next
  case (Suc n)
  then have lt: "a < m" by linarith
  have same: "client (trace w') q = client (trace w) q"
    using assms by blast
  show ?case
  proof (cases "client (trace w) q")
    case (Inr p)
    then show ?thesis
      using lt same by (simp add: retry_loop.simps [of client q m d a])
  next
    case (Inl e)
    show ?thesis
    proof (cases "a = m - 1 \<or> \<not> (0 \<le> d * (a + 1) \<and> d * (a + 1) \<le> sleep_max)")
      case True
      then show ?thesis
        using lt same Inl
        by (auto simp: retry_loop.simps [of client q m d a] sleep_def Let_def)
    next
      case False
      then have pause: "sleep (d * (a + 1)) v = Inr (v\<lparr>trace := trace v @ [Sleep (d * (a + 1))]\<rparr>)"
        for v by (simp add: sleep_returns)
      let ?w2 = "w\<lparr>trace := trace w @ [Request q, Sleep (d * (a + 1))]\<rparr>"
      let ?w2' = "w'\<lparr>trace := trace w' @ [Request q, Sleep (d * (a + 1))]\<rparr>"
      have l: "retry_loop client q m d a w = retry_loop client q m d (a + 1) ?w2"
        using lt Inl False
        by (simp add: retry_loop.simps [of client q m d a w] pause Let_def)
      have r: "retry_loop client q m d a w' = retry_loop client q m d (a + 1) ?w2'"
        using lt Inl same False
        by (simp add: retry_loop.simps [of client q m d a w'] pause Let_def)
      have "n = nat (m - (a + 1))" using Suc.hyps(2) by linarith
      from Suc.hyps(1) [OF this, of ?w2 ?w2'] show ?thesis
        by (simp only: l r)
    qed
  qed
qed

lemma process_single_narrative_deterministic:
  assumes "\<forall>h h' q. client h q = client h' q"
  shows "fst (process_single_narrative x client prompt m d w) =
         fst (process_single_narrative x client prompt m d w')"
  unfolding process_single_narrative_def using assms by (rule retry_loop_deterministic)

lemma apply_series_deterministic:
  assumes "\<forall>h h' q. client h q = client h' q"
  shows "fst (apply_series (\<lambda>x. process_single_narrative x client prompt 3 1) xs w) =
         fst (apply_series (\<lambda>x. process_single_narrative x client prompt 3 1) xs w')"
proof (induction xs arbitrary: w w')
  case Nil
  show ?case by simp
next
  case (Cons x xs)
  from process_single_narrative_returns [of x client prompt w]
  obtain s w1 where a: "process_single_narrative x client prompt 3 1 w = (Inr (PyStr s), w1)"
    by blast
  from process_single_narrative_returns [of x client prompt w']
  obtain s' w1' where b: "process_single_narrative x client prompt 3 1 w' = (Inr (PyStr s'), w1')"
    by blast
  from process_single_narrative_deterministic [OF assms, of x prompt 3 1 w w'] a b
  have s: "s' = s" by simp
  from apply_series_returns [of client prompt xs w1]
  obtain ys w2 where c: "apply_series (\<lambda>x. process_single_narrative x client prompt 3 1) xs w1 =
      (Inr ys, w2)" by blast
  from apply_series_returns [of client prompt xs w1']
  obtain ys' w2' where d: "apply_series (\<lambda>x. process_single_narrative x client prompt 3 1) xs w1' =
      (Inr ys', w2')" by blast
  from Cons [of w1 w1'] c d have "ys' = ys" by simp
  with s show ?case by (simp add: a b c d)
qed

lemma process_narrative_pairs_deterministic:
  assumes "\<forall>h h' q. client h q = client h' q"
  shows "fst (process_narrative_pairs xs client prompt w) =
         fst (process_narrative_pairs xs client prompt w')"
proof (induction xs rule: rev_induct)
  case Nil
  show ?case by (simp add: process_narrative_pairs_Nil)
next
  case (snoc x xs)
  show ?case
  proof (cases "xs = []")
    case True
    then show ?thesis by (simp add: process_narrative_pairs_single)
  next
    case False
    from process_narrative_pairs_returns [of xs client prompt w]
    obtain rs w1 where a: "process_narrative_pairs xs client prompt w = (Inr rs, w1)" by blast
    from process_narrative_pairs_returns [of xs client prompt w']
    obtain rs' w1' where b: "process_narrative_pairs xs client prompt w' = (Inr rs', w1')" by blast
    from snoc a b have rs: "rs' = rs" by simp
    from process_single_narrative_returns [of "PyStr (pair_payload (last xs) x)" client prompt w1]
    obtain s w2 where c: "process_single_narrative (PyStr (pair_payload (last xs) x))
        client prompt 3 1 w1 = (Inr (PyStr s), w2)" by blast
    from process_single_narrative_returns [of "PyStr (pair_payload (last xs) x)" client prompt w1']
    obtain s' w2' where d: "process_single_narrative (PyStr (pair_payload (last xs) x))
        client prompt 3 1 w1' = (Inr (PyStr s'), w2')" by blast
    from process_single_narrative_deterministic
      [OF assms, of "PyStr (pair_payload (last xs) x)" prompt 3 1 w1 w1'] c d
    have "s' = s" by simp
    with rs show ?thesis
      by (simp add: process_narrative_pairs_snoc [OF False] a b c d)
  qed
qed

lemma update_present:
  "map_of al k = Some v \<Longrightarrow> AList.update k v al = al"
  by (induction al) auto

lemma update_twice_again:
  assumes "a \<noteq> e"
  shows "AList.update e y (AList.update a x (AList.update e y (AList.update a x al))) =
         AList.update e y (AList.update a x al)"
proof -
  let ?al = "AList.update e y (AList.update a x al)"
  have "map_of ?al a = Some x" using assms by (simp add: update_conv')
  then have "AList.update a x ?al = ?al" by (rule update_present)
  moreover have "map_of ?al e = Some y" by (simp add: update_conv')
  then have "AList.update e y ?al = ?al" by (rule update_present)
  ultimately show ?thesis by simp
qed

lemma pairs_results_by_index:
  "\<exists>results w'.
     process_narrative_pairs narratives client prompt w = (Inr results, w') \<and>
     length results = length narratives \<and>
     (0 < length narratives \<longrightarrow> results ! 0 = PyStr []) \<and>
     (\<forall>i. 1 \<le> i \<and> i < length narratives \<longrightarrow>
        fst (process_single_narrative
               (PyStr (pair_payload (narratives ! (i - 1)) (narratives ! i))) client prompt 3 1
               (snd (process_narrative_pairs (take i narratives) client prompt w)))
          = Inr (results ! i))"
proof -
  from process_narrative_pairs_returns [of narratives client prompt w]
  obtain rs w' where rs: "process_narrative_pairs narratives client prompt w = (Inr rs, w')"
    and len: "length rs = length narratives" by blast
  have first: "0 < length narratives \<longrightarrow> rs ! 0 = PyStr []"
  proof
    assume pos: "0 < length narratives"
    then have "take 1 narratives = [narratives ! 0]"
      by (cases narratives) simp_all
    moreover have "fst (process_narrative_pairs (take 1 narratives) client prompt w) =
        Inr (take 1 rs)"
      using pos by (intro process_narrative_pairs_take [OF rs]) (cases narratives, simp_all)
    ultimately have "take 1 rs = [PyStr []]"
      by (simp add: process_narrative_pairs_single)
    then show "rs ! 0 = PyStr []"
      by (cases rs) simp_all
  qed
  have rest: "\<forall>i. 1 \<le> i \<and> i < length narratives \<longrightarrow>
        fst (process_single_narrative
               (PyStr (pair_payload (narratives ! (i - 1)) (narratives ! i))) client prompt 3 1
               (snd (process_narrative_pairs (take i narratives) client prompt w)))
          = Inr (rs ! i)"
  proof (intro allI impI)
    fix i assume i: "1 \<le> i \<and> i < length narratives"
    from process_narrative_pairs_returns [of "take i narratives" client prompt w]
    obtain rs1 w1 where
      rs1: "process_narrative_pairs (take i narratives) client prompt w = (Inr rs1, w1)"
      and len1: "length rs1 = length (take i narratives)" by blast
    from process_single_narrative_returns
      [of "PyStr (pair_payload (narratives ! (i - 1)) (narratives ! i))" client prompt w1]
    obtain s w2 where s: "process_single_narrative
        (PyStr (pair_payload (narratives ! (i - 1)) (narratives ! i))) client prompt 3 1 w1 =
        (Inr (PyStr s), w2)" by blast
    have "process_narrative_pairs (take (Suc i) narratives) client prompt w =
        (Inr (rs1 @ [PyStr s]), w2)"
      using i s by (simp add: process_narrative_pairs_take_Suc rs1)
    moreover have "fst (process_narrative_pairs (take (Suc i) narratives) client prompt w) =
        Inr (take (Suc i) rs)"
      using i by (intro process_narrative_pairs_take [OF rs]) simp
    ultimately have "take (Suc i) rs = rs1 @ [PyStr s]" by simp
    moreover have "length rs1 = i" using len1 i by simp
    moreover have "take (Suc i) rs ! i = rs ! i" by simp
    ultimately have "rs ! i = PyStr s" by (metis nth_append_length)
    then show "fst (process_single_narrative
               (PyStr (pair_payload (narratives ! (i - 1)) (narratives ! i))) client prompt 3 1
               (snd (process_narrative_pairs (take i narratives) client prompt w)))
          = Inr (rs ! i)"
      using s by (simp add: rs1)
  qed
  from rs len first rest show ?thesis by blast
qed

section \<open>Cell by cell\<close>

lemma process_single_narrative_outcome:
  "\<exists>cell w'. process_single_narrative x client prompt 3 1 w = (Inr cell, w') \<and>
     cell_outcome client (user_content prompt x) w cell"
proof -
  have "1 * (3 - 1) \<le> sleep_max" by (simp add: sleep_max_def)
  from retry_loop_outcome [OF _ _ _ this, of 0 client w "user_content prompt x"]
  obtain k' s' where k': "0 \<le> k'" "k' < 3"
    and f: "\<forall>j\<in>{0..<k'}. isl (client (trace w @ backoff_trace (user_content prompt x) 1 0 j)
               (user_content prompt x))"
    and r': "retry_loop client (user_content prompt x) 3 1 0 w =
       (Inr (PyStr s'),
        w\<lparr>trace := trace w @ backoff_trace (user_content prompt x) 1 0 k' @
             [Request (user_content prompt x)]\<rparr>)"
    and c': "(case client (trace w @ backoff_trace (user_content prompt x) 1 0 k')
               (user_content prompt x) of
        Inr p \<Rightarrow> s' = p
      | Inl e \<Rightarrow> k' = 3 - 1 \<and> s' = ''Error: '' @ e)"
    by auto
  have "cell_outcome client (user_content prompt x) w (PyStr s')"
    unfolding cell_outcome_def
    using k' f c' by (intro exI [of _ k']) (auto split: sum.splits)
  moreover have "process_single_narrative x client prompt 3 1 w =
       (Inr (PyStr s'),
        w\<lparr>trace := trace w @ backoff_trace (user_content prompt x) 1 0 k' @
             [Request (user_content prompt x)]\<rparr>)"
    by (simp add: process_single_narrative_def r')
  ultimately show ?thesis by blast
qed

lemma apply_series_snoc:
  "apply_series f (xs @ [x]) w =
     (case apply_series f xs w of
        (Inl err, w1) \<Rightarrow> (Inl err, w1)
      | (Inr ys, w1) \<Rightarrow>
          (case f x w1 of
             (Inl err, w2) \<Rightarrow> (Inl err, w2)
           | (Inr y, w2) \<Rightarrow> (Inr (ys @ [y]), w2)))"
  by (induction xs arbitrary: w) (auto split: prod.splits sum.splits)

lemma apply_series_outcomes:
  assumes "apply_series (\<lambda>x. process_single_narrative x client prompt 3 1) xs w = (Inr ys, w')"
    and "i < length xs"
  shows "cell_outcome client (user_content prompt (xs ! i))
           (snd (apply_series (\<lambda>x. process_single_narrative x client prompt 3 1) (take i xs) w))
           (ys ! i)"
  using assms
proof (induction xs arbitrary: ys w' rule: rev_induct)
  case Nil
  then show ?case by simp
next
  case (snoc x xs)
  let ?f = "\<lambda>x. process_single_narrative x client prompt 3 1"
  from apply_series_returns [of client prompt xs w]
  obtain ys1 w1 where ys1: "apply_series ?f xs w = (Inr ys1, w1)" "length ys1 = length xs"
    by blast
  from process_single_narrative_outcome [of x client prompt w1]
  obtain y w2 where y: "process_single_narrative x client prompt 3 1 w1 = (Inr y, w2)"
    "cell_outcome client (user_content prompt x) w1 y" by blast
  have ys: "ys = ys1 @ [y]"
    using snoc.prems(1) by (simp add: apply_series_snoc ys1 y)
  show ?case
  proof (cases "i = length xs")
    case True
    then show ?thesis using y(2) ys1 by (simp add: ys nth_append)
  next
    case False
    then have i: "i < length xs" using snoc.prems(2) by simp
    from snoc.IH [OF ys1(1) i] i ys1(2) show ?thesis
      by (simp add: ys nth_append)
  qed
qed

lemma process_narrative_pairs_outcomes:
  assumes "process_narrative_pairs xs client prompt w = (Inr rs, w')"
    and "1 \<le> i" and "i < length xs"
  shows "cell_outcome client (user_content prompt (PyStr (pair_payload (xs ! (i - 1)) (xs ! i))))
           (snd (process_narrative_pairs (take i xs) client prompt w)) (rs ! i)"
proof -
  from process_narrative_pairs_returns [of "take i xs" client prompt w]
  obtain rs1 w1 where
    rs1: "process_narrative_pairs (take i xs) client prompt w = (Inr rs1, w1)"
    and len1: "length rs1 = length (take i xs)" by blast
  from process_single_narrative_outcome
    [of "PyStr (pair_payload (xs ! (i - 1)) (xs ! i))" client prompt w1]
  obtain r w2 where r: "process_single_narrative
        (PyStr (pair_payload (xs ! (i - 1)) (xs ! i))) client prompt 3 1 w1 = (Inr r, w2)"
    and o: "cell_outcome client (user_content prompt (PyStr (pair_payload (xs ! (i - 1)) (xs ! i))))
        w1 r" by blast
  have "process_narrative_pairs (take (Suc i) xs) client prompt w = (Inr (rs1 @ [r]), w2)"
    using assms(2,3) r by (simp add: process_narrative_pairs_take_Suc rs1)
  moreover have "fst (process_narrative_pairs (take (Suc i) xs) client prompt w) =
        Inr (take (Suc i) rs)"
    using assms(3) by (intro process_narrative_pairs_take [OF assms(1)]) simp
  ultimately have "take (Suc i) rs = rs1 @ [r]" by simp
  moreover have "length rs1 = i" using len1 assms(3) by simp
  moreover have "take (Suc i) rs ! i = rs ! i" by simp
  ultimately have "rs ! i = r" by (metis nth_append_length)
  with o show ?thesis by (simp add: rs1)
qed

lemma process_narrative_pairs_first:
  assumes "process_narrative_pairs xs client prompt w = (Inr rs, w')" and "xs \<noteq> []"
  shows "rs ! 0 = PyStr []"
  using pairs_results_by_index [of xs client prompt w] assms by auto

lemma cell_outcome_failing_client:
  "cell_outcome failing_client content w cell \<Longrightarrow> cell = PyStr ''Error: boom''"
  by (auto simp: cell_outcome_def failing_client_def)

lemma three_equal_cells:
  assumes "length xs = 3" and "\<forall>i<3. xs ! i = (x::py_value)"
  shows "xs = [x, x, x]"
proof (rule nth_equalityI)
  show "length xs = length [x, x, x]" using assms(1) by simp
next
  fix i assume "i < length xs"
  then have "i < 3" using assms(1) by simp
  then have "i = 0 \<or> i = 1 \<or> i = 2" by auto
  then show "xs ! i = [x, x, x] ! i" using assms(2) by auto
qed

lemma update_keys_present:
  "k \<in> fst ` set al \<Longrightarrow> map fst (AList.update k v al) = map fst al"
  by (simp add: update_keys)

lemma map_of_Some_key:
  "map_of al k = Some v \<Longrightarrow> k \<in> fst ` set al"
  by (induction al) (auto split: if_splits)

section \<open>A service that always answers\<close>






section \<open>The single-item annotator\<close>

text \<open>
  Claim C9. With \<open>max_retries\<close> zero or negative the loop body never runs: no request is
  sent, nothing else happens, and the function returns \<open>None\<close>, which is not a string.
\<close>

theorem nonpositive_max_retries_returns_None:
  "max_retries \<le> 0 \<Longrightarrow>
     process_single_narrative narrative client prompt max_retries delay w = (Inr PyNone, w)"
  by (simp add: process_single_narrative_def retry_loop.simps)

theorem nonpositive_max_retries_witness:
  "process_single_narrative (PyStr ''A dog slept.'') parroting_client ''P'' 0 1 empty_world
     = (Inr PyNone, empty_world)"
  using nonpositive_max_retries_returns_None [of 0 "PyStr ''A dog slept.''" parroting_client "''P''" 1 empty_world] by simp










section \<open>The pairwise comparator\<close>

text \<open>
  Claim C3. For every list of \<open>N\<close> annotations and every service,
  \<open>process_narrative_pairs\<close> returns a list of \<open>N\<close> values; element 0 is the empty
  string; for \<open>1 \<le> i < N\<close>, element \<open>i\<close> is what \<open>process_single_narrative\<close> returns
  under the comparison prompt on the payload \<open>First: \<close>, \<open>annotation[i-1]\<close>, a newline,
  \<open>Second: \<close>, \<open>annotation[i]\<close>, called in the world the loop has reached after the
  pairs before it (the world after the run on the first \<open>i\<close> annotations).
\<close>

theorem pairwise_comparator_results:
  "\<exists>results w'.
     process_narrative_pairs narratives client prompt w = (Inr results, w') \<and>
     length results = length narratives \<and>
     (0 < length narratives \<longrightarrow> results ! 0 = PyStr []) \<and>
     (\<forall>i. 1 \<le> i \<and> i < length narratives \<longrightarrow>
        fst (process_single_narrative
               (PyStr (''First: '' @ py_format (narratives ! (i - 1)) @ [newline] @
                       ''Second: '' @ py_format (narratives ! i)))
               client prompt 3 1
               (snd (process_narrative_pairs (take i narratives) client prompt w)))
          = Inr (results ! i))"
  using pairs_results_by_index [of narratives client prompt w]
  unfolding pair_payload_def .

theorem pairwise_comparator_results_witness:
  "fst (process_narrative_pairs [PyStr ''a'', PyStr ''b''] echo_client ''C'' empty_world) =
     Inr [PyStr [],
          PyStr (''re: C'' @ [newline, newline] @ ''Narrative: First: a'' @ [newline] @
                 ''Second: b'')]"
proof -
  let ?ns = "[PyStr ''a'', PyStr ''b'']"
  from pairwise_comparator_results [of ?ns echo_client "''C''" empty_world]
  obtain results w' where
    r: "process_narrative_pairs ?ns echo_client ''C'' empty_world = (Inr results, w')"
    and len: "length results = length ?ns"
    and z: "0 < length ?ns \<longrightarrow> results ! 0 = PyStr []"
    and rest: "\<forall>i. 1 \<le> i \<and> i < length ?ns \<longrightarrow>
        fst (process_single_narrative
               (PyStr (''First: '' @ py_format (?ns ! (i - 1)) @ [newline] @
                       ''Second: '' @ py_format (?ns ! i)))
               echo_client ''C'' 3 1
               (snd (process_narrative_pairs (take i ?ns) echo_client ''C'' empty_world)))
          = Inr (results ! i)"
    by blast
  have "fst (process_single_narrative
               (PyStr (''First: '' @ py_format (?ns ! (1 - 1)) @ [newline] @
                       ''Second: '' @ py_format (?ns ! 1)))
               echo_client ''C'' 3 1
               (snd (process_narrative_pairs (take 1 ?ns) echo_client ''C'' empty_world)))
          = Inr (results ! 1)"
    by (intro rest [rule_format]) simp
  then have one: "results ! 1 =
      PyStr (''re: C'' @ [newline, newline] @ ''Narrative: First: a'' @ [newline] @
                 ''Second: b'')"
    by (simp add: process_narrative_pairs_single process_single_narrative_def
          retry_loop.simps echo_client_def user_content_def)
  from z have zero: "results ! 0 = PyStr []" by simp
  from len obtain x y where xy: "results = [x, y]"
    by (auto simp: length_Suc_conv numeral_2_eq_2)
  from one zero r show ?thesis unfolding xy by simp
qed

text \<open>
  Claim C8. For \<open>1 \<le> i < N\<close>, what the loop adds to the trace for row \<open>i\<close> is one to
  three requests (with the sleeps between them), every one with the content
  \<open>prompt\<close>, two newlines, \<open>Narrative: First: annotation[i-1]\<close>, newline,
  \<open>Second: annotation[i]\<close>: the pair payload is wrapped once more by the \<open>Narrative:\<close>
  label of the single-item request. The trace of the whole run goes on from there.
\<close>

theorem comparison_request_content:
  fixes narratives :: "py_value list" and prompt :: string
  defines "c \<equiv> \<lambda>i. prompt @ [newline, newline] @ ''Narrative: '' @
             ''First: '' @ py_format (narratives ! (i - 1)) @ [newline] @
             ''Second: '' @ py_format (narratives ! i)"
  assumes "1 \<le> i" and "i < length narratives"
  shows "\<exists>k. 0 \<le> k \<and> k < 3 \<and>
     trace (snd (process_narrative_pairs (take (Suc i) narratives) client prompt w)) =
       trace (snd (process_narrative_pairs (take i narratives) client prompt w)) @
       backoff_trace (c i) 1 0 k @ [Request (c i)] \<and>
     requests_of (backoff_trace (c i) 1 0 k @ [Request (c i)]) = replicate (Suc (nat k)) (c i) \<and>
     (\<exists>t. trace (snd (process_narrative_pairs narratives client prompt w)) =
       trace (snd (process_narrative_pairs (take (Suc i) narratives) client prompt w)) @ t)"
proof -
  have c: "user_content prompt (PyStr (pair_payload (narratives ! (i - 1)) (narratives ! i))) = c i"
    by (simp add: c_def user_content_def pair_payload_def)
  from process_narrative_pairs_returns [of "take i narratives" client prompt w]
  obtain rs1 w1 where
    rs1: "process_narrative_pairs (take i narratives) client prompt w = (Inr rs1, w1)"
    by blast
  from process_single_narrative_default
    [of "PyStr (pair_payload (narratives ! (i - 1)) (narratives ! i))" client prompt w1]
  obtain s k where k: "0 \<le> k" "k < 3"
    and s: "process_single_narrative
        (PyStr (pair_payload (narratives ! (i - 1)) (narratives ! i))) client prompt 3 1 w1 =
        (Inr (PyStr s), w1\<lparr>trace := trace w1 @ backoff_trace (c i) 1 0 k @ [Request (c i)]\<rparr>)"
    unfolding c by blast
  have step: "process_narrative_pairs (take (Suc i) narratives) client prompt w =
      (Inr (rs1 @ [PyStr s]),
       w1\<lparr>trace := trace w1 @ backoff_trace (c i) 1 0 k @ [Request (c i)]\<rparr>)"
    using assms(2,3) s by (simp add: process_narrative_pairs_take_Suc rs1)
  have tr: "trace (snd (process_narrative_pairs (take (Suc i) narratives) client prompt w)) =
       trace (snd (process_narrative_pairs (take i narratives) client prompt w)) @
       backoff_trace (c i) 1 0 k @ [Request (c i)]"
    by (simp add: step rs1)
  have rq: "requests_of (backoff_trace (c i) 1 0 k @ [Request (c i)]) =
      replicate (Suc (nat k)) (c i)"
    by (simp add: requests_of_append requests_of_backoff_trace replicate_append_same)
  have "Suc i \<le> length narratives" using assms(3) by simp
  from process_narrative_pairs_trace_take [OF this, of client prompt w]
  have ext: "\<exists>t. trace (snd (process_narrative_pairs narratives client prompt w)) =
       trace (snd (process_narrative_pairs (take (Suc i) narratives) client prompt w)) @ t" .
  from k tr rq ext show ?thesis by blast
qed

theorem comparison_request_content_witness:
  "set (requests_of (trace (snd (process_narrative_pairs [PyStr ''a'', PyStr ''b'']
      echo_client ''C'' empty_world)))) =
   {''C'' @ [newline, newline] @ ''Narrative: First: a'' @ [newline] @ ''Second: b''}"
proof -
  let ?ns = "[PyStr ''a'', PyStr ''b'']"
  let ?c = "''C'' @ [newline, newline] @ ''Narrative: '' @
             ''First: '' @ py_format (?ns ! (1 - 1)) @ [newline] @
             ''Second: '' @ py_format (?ns ! 1)"
  from comparison_request_content [of 1 ?ns echo_client "''C''" empty_world]
  obtain k where
    "trace (snd (process_narrative_pairs (take (Suc 1) ?ns) echo_client ''C'' empty_world)) =
       trace (snd (process_narrative_pairs (take 1 ?ns) echo_client ''C'' empty_world)) @
       backoff_trace ?c 1 0 k @ [Request ?c]"
    and "requests_of (backoff_trace ?c 1 0 k @ [Request ?c]) = replicate (Suc (nat k)) ?c"
    by auto
  then have "requests_of (trace (snd (process_narrative_pairs ?ns echo_client ''C'' empty_world)))
      = replicate (Suc (nat k)) ?c"
    by (simp add: process_narrative_pairs_single empty_world_def)
  then have "set (requests_of (trace (snd (process_narrative_pairs ?ns echo_client ''C''
      empty_world)))) = {?c}"
    by (simp only: set_replicate_Suc)
  then show ?thesis by simp
qed

section \<open>The pipeline\<close>

text \<open>
  Claim C4. For every stored table with \<open>N\<close> rows and a \<open>Narrative\<close> column, and every
  service, the run ends normally and the table written back has \<open>N\<close> rows, every
  column of \<open>N\<close> cells; the \<open>Narrative\<close> column and every other column but the two
  derived ones hold the cells they held, in the order they held them.
\<close>

theorem table_rows_preserved:
  assumes "files w file_path = Some (Table df)" and "wf_dataframe df"
    and "map_of (cols df) ''Narrative'' = Some narratives"
  shows "\<exists>df' w'.
     process_narratives file_path client narrative_prompt comparison_prompt w = (Inr (), w') \<and>
     files w' file_path = Some (Table df') \<and>
     nrows df' = nrows df \<and>
     wf_dataframe df' \<and>
     map_of (cols df') ''Narrative'' = Some narratives \<and>
     (\<forall>c. c \<noteq> ''Narrative_roles_and_salient_elements'' \<and> c \<noteq> ''Elements_persistence'' \<longrightarrow>
        map_of (cols df') c = map_of (cols df) c)"
proof -
  from apply_series_returns [of client narrative_prompt narratives w]
  obtain roles w1 where
    roles: "apply_series (\<lambda>x. process_single_narrative x client narrative_prompt 3 1)
           narratives w = (Inr roles, w1)"
    and lr: "length roles = length narratives" by blast
  from process_narrative_pairs_returns [of roles client comparison_prompt w1]
  obtain persistence w2 where
    pers: "process_narrative_pairs roles client comparison_prompt w1 = (Inr persistence, w2)"
    and lp: "length persistence = length roles" by blast
  let ?df1 = "df\<lparr>cols := AList.update ''Narrative_roles_and_salient_elements'' roles (cols df)\<rparr>"
  let ?df' = "df\<lparr>cols := AList.update ''Elements_persistence'' persistence
           (AList.update ''Narrative_roles_and_salient_elements'' roles (cols df))\<rparr>"
  have n: "length narratives = nrows df"
    using assms(2,3) by (rule wf_dataframe_column)
  have run: "process_narratives file_path client narrative_prompt comparison_prompt w =
      (Inr (), to_csv ?df' file_path w2)"
    using assms roles pers by (rule process_narratives_run)
  have stored: "files (to_csv ?df' file_path w2) file_path = Some (Table ?df')"
    by (simp add: to_csv_def)
  have wf1: "wf_dataframe ?df1"
    using wf_dataframe_update [OF assms(2), of roles] lr n by simp
  have wf': "wf_dataframe ?df'"
    using wf_dataframe_update [OF wf1, of persistence "''Elements_persistence''"] lp lr n
    by simp
  have narr: "map_of (cols ?df') ''Narrative'' = Some narratives"
    using assms(3) by (simp add: update_conv')
  have others: "\<forall>c. c \<noteq> ''Narrative_roles_and_salient_elements'' \<and> c \<noteq> ''Elements_persistence'' \<longrightarrow>
        map_of (cols ?df') c = map_of (cols df) c"
    by (simp add: update_conv')
  have rows: "nrows ?df' = nrows df" by simp
  from run stored rows wf' narr others show ?thesis by blast
qed

theorem table_rows_preserved_witness:
  "\<exists>df'. files (snd (process_narratives ''table.tsv'' echo_client ''N'' ''C'' demo_world))
           ''table.tsv'' = Some (Table df') \<and>
         nrows df' = 3 \<and>
         map_of (cols df') ''Narrative'' =
           Some [PyStr ''A dog slept.'', PyStr ''A cat helped.'', PyStr ''A bird attacked.'']"
proof -
  have "files demo_world ''table.tsv'' = Some (Table demo_table)"
    by (simp add: demo_world_def)
  moreover have "wf_dataframe demo_table"
    by (simp add: wf_dataframe_def demo_table_def)
  moreover have "map_of (cols demo_table) ''Narrative'' =
      Some [PyStr ''A dog slept.'', PyStr ''A cat helped.'', PyStr ''A bird attacked.'']"
    by (simp add: demo_table_def)
  ultimately obtain df' w' where
    "process_narratives ''table.tsv'' echo_client ''N'' ''C'' demo_world = (Inr (), w')"
    "files w' ''table.tsv'' = Some (Table df')" "nrows df' = nrows demo_table"
    "map_of (cols df') ''Narrative'' =
      Some [PyStr ''A dog slept.'', PyStr ''A cat helped.'', PyStr ''A bird attacked.'']"
    using table_rows_preserved [of demo_world "''table.tsv''" demo_table _ echo_client "''N''" "''C''"]
    by blast
  then show ?thesis by (auto simp: demo_table_def)
qed

text \<open>
  Claim C6. When nothing is stored at the path, when what is stored cannot be parsed, or
  when the table has no \<open>Narrative\<close> column, the run raises and the world is what it was:
  nothing is written and no request is sent. When the table can be read and has the
  column, no behaviour of the service makes the run raise: the table is written with the
  two derived columns, each of as many cells as the table has rows. The annotation cell
  of row \<open>i\<close> is the outcome of the requests for narrative \<open>i\<close>, sent in the world reached
  after the rows before it: the text the service answered, or, after three failed
  attempts, \<open>Error: \<close> followed by the text of the third exception. The persistence cell of
  row 0 is the empty string, and that of a row \<open>i \<ge> 1\<close> is, in the same way, the outcome
  of the requests comparing the annotation cells \<open>i - 1\<close> and \<open>i\<close>.
\<close>

theorem structural_errors_abort_before_write:
  "(files w file_path = None \<longrightarrow>
      process_narratives file_path client narrative_prompt comparison_prompt w =
        (Inl FileNotFoundError, w)) \<and>
   (files w file_path = Some Unparsable \<longrightarrow>
      process_narratives file_path client narrative_prompt comparison_prompt w =
        (Inl ParserError, w)) \<and>
   (files w file_path = Some (Table df) \<and> map_of (cols df) ''Narrative'' = None \<longrightarrow>
      process_narratives file_path client narrative_prompt comparison_prompt w =
        (Inl (KeyError ''Narrative''), w)) \<and>
   (files w file_path = Some (Table df) \<and> wf_dataframe df \<and>
    map_of (cols df) ''Narrative'' = Some narratives \<longrightarrow>
      (\<exists>roles persistence w1 w'.
         process_narratives file_path client narrative_prompt comparison_prompt w =
           (Inr (), w') \<and>
         files w' file_path =
           Some (Table (df\<lparr>cols := AList.update ''Elements_persistence'' persistence
                   (AList.update ''Narrative_roles_and_salient_elements'' roles (cols df))\<rparr>)) \<and>
         length roles = length narratives \<and>
         length persistence = length narratives \<and>
         (\<forall>i<length narratives.
            cell_outcome client
              (narrative_prompt @ [newline, newline] @ ''Narrative: '' @
                 py_format (narratives ! i))
              (snd (apply_series (\<lambda>x. process_single_narrative x client narrative_prompt 3 1)
                      (take i narratives) w))
              (roles ! i)) \<and>
         w1 = snd (apply_series (\<lambda>x. process_single_narrative x client narrative_prompt 3 1)
                      narratives w) \<and>
         (0 < length narratives \<longrightarrow> persistence ! 0 = PyStr []) \<and>
         (\<forall>i. 1 \<le> i \<and> i < length narratives \<longrightarrow>
            cell_outcome client
              (comparison_prompt @ [newline, newline] @ ''Narrative: '' @
                 ''First: '' @ py_format (roles ! (i - 1)) @ [newline] @
                 ''Second: '' @ py_format (roles ! i))
              (snd (process_narrative_pairs (take i roles) client comparison_prompt w1))
              (persistence ! i))))"
proof (intro conjI impI)
  assume "files w file_path = None"
  then show "process_narratives file_path client narrative_prompt comparison_prompt w =
        (Inl FileNotFoundError, w)"
    by (simp add: process_narratives_def read_csv_def)
next
  assume "files w file_path = Some Unparsable"
  then show "process_narratives file_path client narrative_prompt comparison_prompt w =
        (Inl ParserError, w)"
    by (simp add: process_narratives_def read_csv_def)
next
  assume "files w file_path = Some (Table df) \<and> map_of (cols df) ''Narrative'' = None"
  then show "process_narratives file_path client narrative_prompt comparison_prompt w =
        (Inl (KeyError ''Narrative''), w)"
    by (simp add: process_narratives_def read_csv_def getitem_def)
next
  assume a: "files w file_path = Some (Table df) \<and> wf_dataframe df \<and>
    map_of (cols df) ''Narrative'' = Some narratives"
  let ?f = "\<lambda>x. process_single_narrative x client narrative_prompt 3 1"
  from apply_series_returns [of client narrative_prompt narratives w]
  obtain roles w1 where
    roles: "apply_series ?f narratives w = (Inr roles, w1)"
    and lr: "length roles = length narratives" by blast
  from process_narrative_pairs_returns [of roles client comparison_prompt w1]
  obtain persistence w2 where
    pers: "process_narrative_pairs roles client comparison_prompt w1 = (Inr persistence, w2)"
    and lp: "length persistence = length roles" by blast
  let ?df' = "df\<lparr>cols := AList.update ''Elements_persistence'' persistence
           (AList.update ''Narrative_roles_and_salient_elements'' roles (cols df))\<rparr>"
  have run: "process_narratives file_path client narrative_prompt comparison_prompt w =
      (Inr (), to_csv ?df' file_path w2)"
    using a roles pers by (intro process_narratives_run) simp_all
  have stored: "files (to_csv ?df' file_path w2) file_path = Some (Table ?df')"
    by (simp add: to_csv_def)
  have lp': "length persistence = length narratives" using lp lr by simp
  have rc: "\<forall>i<length narratives.
            cell_outcome client
              (narrative_prompt @ [newline, newline] @ ''Narrative: '' @
                 py_format (narratives ! i))
              (snd (apply_series ?f (take i narratives) w)) (roles ! i)"
    using apply_series_outcomes [OF roles] by (simp add: user_content_def)
  have w1: "w1 = snd (apply_series ?f narratives w)" by (simp add: roles)
  have p0: "0 < length narratives \<longrightarrow> persistence ! 0 = PyStr []"
  proof
    assume "0 < length narratives"
    then have "roles \<noteq> []" using lr by auto
    then show "persistence ! 0 = PyStr []" by (rule process_narrative_pairs_first [OF pers])
  qed
  have pc: "\<forall>i. 1 \<le> i \<and> i < length narratives \<longrightarrow>
            cell_outcome client
              (comparison_prompt @ [newline, newline] @ ''Narrative: '' @
                 ''First: '' @ py_format (roles ! (i - 1)) @ [newline] @
                 ''Second: '' @ py_format (roles ! i))
              (snd (process_narrative_pairs (take i roles) client comparison_prompt w1))
              (persistence ! i)"
  proof (intro allI impI)
    fix i assume i: "1 \<le> i \<and> i < length narratives"
    then have "1 \<le> i" "i < length roles" using lr by simp_all
    from process_narrative_pairs_outcomes [OF pers this]
    show "cell_outcome client
              (comparison_prompt @ [newline, newline] @ ''Narrative: '' @
                 ''First: '' @ py_format (roles ! (i - 1)) @ [newline] @
                 ''Second: '' @ py_format (roles ! i))
              (snd (process_narrative_pairs (take i roles) client comparison_prompt w1))
              (persistence ! i)"
      by (simp add: user_content_def pair_payload_def)
  qed
  from run stored lr lp' rc w1 p0 pc
  show "\<exists>roles persistence w1 w'.
         process_narratives file_path client narrative_prompt comparison_prompt w =
           (Inr (), w') \<and>
         files w' file_path =
           Some (Table (df\<lparr>cols := AList.update ''Elements_persistence'' persistence
                   (AList.update ''Narrative_roles_and_salient_elements'' roles (cols df))\<rparr>)) \<and>
         length roles = length narratives \<and>
         length persistence = length narratives \<and>
         (\<forall>i<length narratives.
            cell_outcome client
              (narrative_prompt @ [newline, newline] @ ''Narrative: '' @
                 py_format (narratives ! i))
              (snd (apply_series ?f (take i narratives) w))
              (roles ! i)) \<and>
         w1 = snd (apply_series ?f narratives w) \<and>
         (0 < length narratives \<longrightarrow> persistence ! 0 = PyStr []) \<and>
         (\<forall>i. 1 \<le> i \<and> i < length narratives \<longrightarrow>
            cell_outcome client
              (comparison_prompt @ [newline, newline] @ ''Narrative: '' @
                 ''First: '' @ py_format (roles ! (i - 1)) @ [newline] @
                 ''Second: '' @ py_format (roles ! i))
              (snd (process_narrative_pairs (take i roles) client comparison_prompt w1))
              (persistence ! i))"
    by blast
qed

theorem structural_errors_witness:
  "process_narratives ''table.tsv'' failing_client ''N'' ''C'' empty_world =
     (Inl FileNotFoundError, empty_world) \<and>
   process_narratives ''table.tsv'' failing_client ''N'' ''C'' garbled_world =
     (Inl ParserError, garbled_world) \<and>
   process_narratives ''table.tsv'' failing_client ''N'' ''C'' headless_world =
     (Inl (KeyError ''Narrative''), headless_world) \<and>
   fst (process_narratives ''table.tsv'' failing_client ''N'' ''C'' demo_world) = Inr () \<and>
   files (snd (process_narratives ''table.tsv'' failing_client ''N'' ''C'' demo_world))
     ''table.tsv'' =
     Some (Table \<lparr>nrows = 3,
       cols = [(''Narrative'',
                [PyStr ''A dog slept.'', PyStr ''A cat helped.'', PyStr ''A bird attacked.'']),
               (''Narrative_roles_and_salient_elements'',
                [PyStr ''Error: boom'', PyStr ''Error: boom'', PyStr ''Error: boom'']),
               (''Elements_persistence'',
                [PyStr [], PyStr ''Error: boom'', PyStr ''Error: boom''])]\<rparr>)"
proof -
  let ?ns = "[PyStr ''A dog slept.'', PyStr ''A cat helped.'', PyStr ''A bird attacked.'']"
  let ?E = "PyStr ''Error: boom''"
  have "files empty_world ''table.tsv'' = None"
    by (simp add: empty_world_def)
  with structural_errors_abort_before_write
    [of empty_world "''table.tsv''" failing_client "''N''" "''C''"]
  have one: "process_narratives ''table.tsv'' failing_client ''N'' ''C'' empty_world =
     (Inl FileNotFoundError, empty_world)" by blast
  have "files garbled_world ''table.tsv'' = Some Unparsable"
    by (simp add: garbled_world_def)
  with structural_errors_abort_before_write
    [of garbled_world "''table.tsv''" failing_client "''N''" "''C''"]
  have two: "process_narratives ''table.tsv'' failing_client ''N'' ''C'' garbled_world =
     (Inl ParserError, garbled_world)" by blast
  have "files headless_world ''table.tsv'' = Some (Table headless_table) \<and>
      map_of (cols headless_table) ''Narrative'' = None"
    by (simp add: headless_world_def headless_table_def)
  with structural_errors_abort_before_write
    [of headless_world "''table.tsv''" failing_client "''N''" "''C''" headless_table]
  have three: "process_narratives ''table.tsv'' failing_client ''N'' ''C'' headless_world =
     (Inl (KeyError ''Narrative''), headless_world)" by blast
  have "files demo_world ''table.tsv'' = Some (Table demo_table) \<and> wf_dataframe demo_table \<and>
      map_of (cols demo_table) ''Narrative'' = Some ?ns"
    by (simp add: demo_world_def wf_dataframe_def demo_table_def)
  with structural_errors_abort_before_write
    [of demo_world "''table.tsv''" failing_client "''N''" "''C''" demo_table ?ns]
  obtain roles persistence w1 w' where
    run: "process_narratives ''table.tsv'' failing_client ''N'' ''C'' demo_world = (Inr (), w')"
    and stored: "files w' ''table.tsv'' =
           Some (Table (demo_table\<lparr>cols := AList.update ''Elements_persistence'' persistence
             (AList.update ''Narrative_roles_and_salient_elements'' roles (cols demo_table))\<rparr>))"
    and lr: "length roles = length ?ns"
    and lp: "length persistence = length ?ns"
    and rc: "\<forall>i<length ?ns.
            cell_outcome failing_client
              (''N'' @ [newline, newline] @ ''Narrative: '' @ py_format (?ns ! i))
              (snd (apply_series (\<lambda>x. process_single_narrative x failing_client ''N'' 3 1)
                      (take i ?ns) demo_world))
              (roles ! i)"
    and p0: "0 < length ?ns \<longrightarrow> persistence ! 0 = PyStr []"
    and pc: "\<forall>i. 1 \<le> i \<and> i < length ?ns \<longrightarrow>
            cell_outcome failing_client
              (''C'' @ [newline, newline] @ ''Narrative: '' @
                 ''First: '' @ py_format (roles ! (i - 1)) @ [newline] @
                 ''Second: '' @ py_format (roles ! i))
              (snd (process_narrative_pairs (take i roles) failing_client ''C'' w1))
              (persistence ! i)"
    by blast
  have "\<forall>i<3. roles ! i = ?E"
  proof (intro allI impI)
    fix i :: nat assume "i < 3"
    then have "i < length ?ns" by simp
    from rc [rule_format, OF this] show "roles ! i = ?E"
      by (rule cell_outcome_failing_client)
  qed
  with lr have roles: "roles = [?E, ?E, ?E]"
    by (intro three_equal_cells) simp_all
  have "\<forall>i. 1 \<le> i \<and> i < 3 \<longrightarrow> persistence ! i = ?E"
  proof (intro allI impI)
    fix i :: nat assume "1 \<le> i \<and> i < 3"
    then have "1 \<le> i \<and> i < length ?ns" by simp
    from pc [rule_format, OF this] show "persistence ! i = ?E"
      by (rule cell_outcome_failing_client)
  qed
  moreover have "persistence ! 0 = PyStr []" using p0 by simp
  ultimately have "\<forall>i<3. persistence ! i = [PyStr [], ?E, ?E] ! i"
    by (auto simp: less_Suc_eq numeral_3_eq_3)
  with lp have pers: "persistence = [PyStr [], ?E, ?E]"
    by (intro nth_equalityI) simp_all
  have four: "fst (process_narratives ''table.tsv'' failing_client ''N'' ''C'' demo_world) = Inr ()"
    by (simp add: run)
  have five: "files (snd (process_narratives ''table.tsv'' failing_client ''N'' ''C'' demo_world))
     ''table.tsv'' =
     Some (Table \<lparr>nrows = 3,
       cols = [(''Narrative'', ?ns),
               (''Narrative_roles_and_salient_elements'', [?E, ?E, ?E]),
               (''Elements_persistence'', [PyStr [], ?E, ?E])]\<rparr>)"
    using stored by (simp add: run roles pers demo_table_def)
  from one two three four five show ?thesis by (intro conjI)
qed

text \<open>
  Claim C7. A run on a stored table with a \<open>Narrative\<close> column, followed by a second run
  on what the first one wrote (a table that now has the two derived columns): the second
  run ends normally as well, for every service. It writes a table with the same rows,
  the same columns in the same order and every column other than the two derived ones
  unchanged; the two derived columns are what the run computes anew from the cells of
  the \<open>Narrative\<close> column. When the service answers by the prompt alone, the table after
  the second run is the table after the first.
\<close>

theorem rerun_overwrites_derived_columns:
  assumes "files w file_path = Some (Table df)" and "wf_dataframe df"
    and "map_of (cols df) ''Narrative'' = Some narratives"
  shows "\<exists>w1 df1 w2 df2 roles2 w3 persistence2 w4.
     process_narratives file_path client narrative_prompt comparison_prompt w = (Inr (), w1) \<and>
     files w1 file_path = Some (Table df1) \<and>
     process_narratives file_path client narrative_prompt comparison_prompt w1 = (Inr (), w2) \<and>
     files w2 file_path = Some (Table df2) \<and>
     nrows df2 = nrows df1 \<and>
     map fst (cols df2) = map fst (cols df1) \<and>
     map_of (cols df2) ''Narrative'' = Some narratives \<and>
     (\<forall>c. c \<noteq> ''Narrative_roles_and_salient_elements'' \<and> c \<noteq> ''Elements_persistence'' \<longrightarrow>
        map_of (cols df2) c = map_of (cols df1) c) \<and>
     apply_series (\<lambda>x. process_single_narrative x client narrative_prompt 3 1) narratives w1 =
       (Inr roles2, w3) \<and>
     process_narrative_pairs roles2 client comparison_prompt w3 = (Inr persistence2, w4) \<and>
     map_of (cols df2) ''Narrative_roles_and_salient_elements'' = Some roles2 \<and>
     map_of (cols df2) ''Elements_persistence'' = Some persistence2 \<and>
     ((\<forall>h h' q. client h q = client h' q) \<longrightarrow> df2 = df1)"
proof -
  let ?A = "''Narrative_roles_and_salient_elements''"
  let ?E = "''Elements_persistence''"
  let ?f = "\<lambda>x. process_single_narrative x client narrative_prompt 3 1"
  have n: "length narratives = nrows df"
    using assms(2,3) by (rule wf_dataframe_column)
  from apply_series_returns [of client narrative_prompt narratives w]
  obtain roles w1 where
    roles: "apply_series ?f narratives w = (Inr roles, w1)"
    and lr: "length roles = length narratives" by blast
  from process_narrative_pairs_returns [of roles client comparison_prompt w1]
  obtain pers w2 where
    pers: "process_narrative_pairs roles client comparison_prompt w1 = (Inr pers, w2)"
    and lp: "length pers = length roles" by blast
  define df1 where "df1 = df\<lparr>cols := AList.update ?E pers (AList.update ?A roles (cols df))\<rparr>"
  have run1: "process_narratives file_path client narrative_prompt comparison_prompt w =
      (Inr (), to_csv df1 file_path w2)"
    unfolding df1_def using assms roles pers by (rule process_narratives_run)
  have st1: "files (to_csv df1 file_path w2) file_path = Some (Table df1)"
    by (simp add: to_csv_def)
  have wfa: "wf_dataframe (df\<lparr>cols := AList.update ?A roles (cols df)\<rparr>)"
    using wf_dataframe_update [OF assms(2), of roles] lr n by simp
  have wf1: "wf_dataframe df1"
    unfolding df1_def using wf_dataframe_update [OF wfa, of pers ?E] lp lr n by simp
  have narr1: "map_of (cols df1) ''Narrative'' = Some narratives"
    unfolding df1_def using assms(3) by (simp add: update_conv')
  have rows1: "nrows df1 = nrows df" by (simp add: df1_def)
  let ?w1 = "to_csv df1 file_path w2"
  from apply_series_returns [of client narrative_prompt narratives ?w1]
  obtain roles' w3 where
    roles': "apply_series ?f narratives ?w1 = (Inr roles', w3)"
    and lr': "length roles' = length narratives" by blast
  from process_narrative_pairs_returns [of roles' client comparison_prompt w3]
  obtain pers' w4 where
    pers': "process_narrative_pairs roles' client comparison_prompt w3 = (Inr pers', w4)"
    and lp': "length pers' = length roles'" by blast
  define df2 where "df2 = df1\<lparr>cols := AList.update ?E pers' (AList.update ?A roles' (cols df1))\<rparr>"
  have run2: "process_narratives file_path client narrative_prompt comparison_prompt ?w1 =
      (Inr (), to_csv df2 file_path w4)"
    unfolding df2_def using st1 wf1 narr1 roles' pers' by (rule process_narratives_run)
  have st2: "files (to_csv df2 file_path w4) file_path = Some (Table df2)"
    by (simp add: to_csv_def)
  have rows2: "nrows df2 = nrows df1" by (simp add: df2_def)
  have keysA: "?A \<in> fst ` set (cols df1)"
  proof -
    have "map_of (cols df1) ?A = Some roles" by (simp add: df1_def update_conv')
    then show ?thesis by (rule map_of_Some_key)
  qed
  have keysE: "?E \<in> fst ` set (AList.update ?A roles' (cols df1))"
  proof -
    have "map_of (AList.update ?A roles' (cols df1)) ?E = Some pers"
      by (simp add: df1_def update_conv')
    then show ?thesis by (rule map_of_Some_key)
  qed
  have keys2: "map fst (cols df2) = map fst (cols df1)"
    unfolding df2_def using keysA keysE by (simp add: update_keys_present)
  have narr2: "map_of (cols df2) ''Narrative'' = Some narratives"
    unfolding df2_def using narr1 by (simp add: update_conv')
  have others: "\<forall>c. c \<noteq> ?A \<and> c \<noteq> ?E \<longrightarrow> map_of (cols df2) c = map_of (cols df1) c"
    unfolding df2_def by (simp add: update_conv')
  have det: "(\<forall>h h' q. client h q = client h' q) \<longrightarrow> df2 = df1"
  proof
    assume d: "\<forall>h h' q. client h q = client h' q"
    from apply_series_deterministic [OF d, of narrative_prompt narratives w ?w1] roles roles'
    have r: "roles' = roles" by simp
    from process_narrative_pairs_deterministic [OF d, of roles comparison_prompt w1 w3]
      pers pers' r
    have p: "pers' = pers" by simp
    have "AList.update ?E pers (AList.update ?A roles
            (AList.update ?E pers (AList.update ?A roles (cols df)))) =
          AList.update ?E pers (AList.update ?A roles (cols df))"
      by (rule update_twice_again) simp
    then show "df2 = df1"
      unfolding df2_def r p by (simp add: df1_def)
  qed
  have colA: "map_of (cols df2) ?A = Some roles'"
    unfolding df2_def by (simp add: update_conv')
  have colE: "map_of (cols df2) ?E = Some pers'"
    unfolding df2_def by (simp add: update_conv')
  show ?thesis
    by (rule exI [of _ ?w1], rule exI [of _ df1], rule exI [of _ "to_csv df2 file_path w4"],
        rule exI [of _ df2], rule exI [of _ roles'], rule exI [of _ w3],
        rule exI [of _ pers'], rule exI [of _ w4])
       (intro conjI run1 st1 run2 st2 rows2 keys2 narr2 others roles' pers' colA colE det)
qed

theorem rerun_overwrites_derived_columns_witness:
  "fst (process_narratives ''table.tsv'' echo_client ''N'' ''C''
         (snd (process_narratives ''table.tsv'' echo_client ''N'' ''C'' demo_world))) = Inr () \<and>
   files (snd (process_narratives ''table.tsv'' echo_client ''N'' ''C''
         (snd (process_narratives ''table.tsv'' echo_client ''N'' ''C'' demo_world))))
     ''table.tsv'' =
   files (snd (process_narratives ''table.tsv'' echo_client ''N'' ''C'' demo_world)) ''table.tsv''"
proof -
  have a: "files demo_world ''table.tsv'' = Some (Table demo_table)"
    by (simp add: demo_world_def)
  have b: "wf_dataframe demo_table"
    by (simp add: wf_dataframe_def demo_table_def)
  have c: "map_of (cols demo_table) ''Narrative'' =
      Some [PyStr ''A dog slept.'', PyStr ''A cat helped.'', PyStr ''A bird attacked.'']"
    by (simp add: demo_table_def)
  from rerun_overwrites_derived_columns [OF a b c, of echo_client "''N''" "''C''"]
  obtain w1 df1 w2 df2 where
    r1: "process_narratives ''table.tsv'' echo_client ''N'' ''C'' demo_world = (Inr (), w1)"
    and s1: "files w1 ''table.tsv'' = Some (Table df1)"
    and r2: "process_narratives ''table.tsv'' echo_client ''N'' ''C'' w1 = (Inr (), w2)"
    and s2: "files w2 ''table.tsv'' = Some (Table df2)"
    and det: "(\<forall>h h' q. echo_client h q = echo_client h' q) \<longrightarrow> df2 = df1"
    by (elim exE conjE) (rule that; assumption)
  have "\<forall>h h' q. echo_client h q = echo_client h' q"
    by (simp add: echo_client_def)
  with det have "df2 = df1" by (rule mp)
  with r1 s1 r2 s2 show ?thesis by simp
qed



end
